theory Spec2Isabelle
  imports Complex_Main "HOL-Library.AList"
begin

section \<open>Numbers and field values\<close>

text \<open>
  A JavaScript \<open>number\<close>: the not-a-number value, the two infinities and the finite
  values. The program never computes with its numbers; it only compares them with
  \<open><\<close> and \<open>>\<close> against literals, so a finite value is modelled by the real number it
  denotes. Every comparison with \<open>NaN\<close> is false, as in JavaScript.
\<close>

datatype jsnum = NaN | NegInf | Fin real | PosInf

fun js_lt :: "jsnum \<Rightarrow> jsnum \<Rightarrow> bool" where
  "js_lt NaN y = False"
| "js_lt x NaN = False"
| "js_lt PosInf y = False"
| "js_lt x NegInf = False"
| "js_lt NegInf y = True"
| "js_lt x PosInf = True"
| "js_lt (Fin a) (Fin b) = (a < b)"

definition js_gt :: "jsnum \<Rightarrow> jsnum \<Rightarrow> bool" where
  "js_gt x y = js_lt y x"

fun js_le :: "jsnum \<Rightarrow> jsnum \<Rightarrow> bool" where
  "js_le NaN y = False"
| "js_le x NaN = False"
| "js_le x y = (\<not> js_lt y x)"

definition isNaN :: "jsnum \<Rightarrow> bool" where
  "isNaN x = (x = NaN)"

text \<open>The type \<open>number | ''\<close> of a form field: the empty string or a number.\<close>

datatype field_value = Empty | Num jsnum

section \<open>Risk colour and recommended actions\<close>

text \<open>
  \<^verbatim>\<open>
  const getChurnRiskColor = (probability: number) => {
    if (probability < 0.3) return 'bg-green-100 text-green-800';
    if (probability < 0.7) return 'bg-yellow-100 text-yellow-800';
    return 'bg-red-100 text-red-800';
  };
  \<close>
\<close>

definition getChurnRiskColor :: "jsnum \<Rightarrow> string" where
  "getChurnRiskColor probability =
     (if js_lt probability (Fin 0.3) then ''bg-green-100 text-green-800''
      else if js_lt probability (Fin 0.7) then ''bg-yellow-100 text-yellow-800''
      else ''bg-red-100 text-red-800'')"

record actions =
  title :: string
  steps :: "string list"

definition getRecommendedActions :: "jsnum \<Rightarrow> actions" where
  "getRecommendedActions probability =
     (if js_gt probability (Fin 0.7) then
        \<lparr> title = ''Critical Retention Actions Required'',
          steps =
            [''Analyze recent service disruptions and prepare compensation package'',
             ''Review competitor offers in customer's area to create a competitive counter-offer'',
             ''Prepare premium service upgrade proposal with first 3 months at reduced rate'',
             ''Document all recent customer service interactions for retention specialist review''] \<rparr>
      else if js_gt probability (Fin 0.4) then
        \<lparr> title = ''Preventive Measures Recommended'',
          steps =
            [''Review service usage patterns for optimization opportunities'',
             ''Prepare proactive upgrade offers based on usage patterns'',
             ''Schedule routine check-in call within next 2 weeks'',
             ''Monitor service quality metrics for any degradation''] \<rparr>
      else
        \<lparr> title = ''Growth Opportunity Identified'',
          steps =
            [''Analyze usage patterns for premium service opportunities'',
             ''Include in beta testing program for new features'',
             ''Consider for loyalty rewards program enrollment'',
             ''Schedule annual service review and upgrade discussion''] \<rparr>)"

section \<open>The form and its constraints\<close>

text \<open>
  The interface \<open>FormData\<close> is an object with string keys; the handlers read and write it
  through computed keys (\<open>[name]: value\<close>, \<open>Object.values\<close>), so it is modelled as an
  association list in key order. Spreading an object and writing a computed key keeps an
  existing key in its place and appends a new one, which is what \<open>AList.update\<close> does.
\<close>

type_synonym FormData = "(string \<times> field_value) list"

record PredictionResult =
  predicted_churn :: jsnum
  churn_probability :: jsnum

definition initialFormData :: FormData where
  "initialFormData =
     [(''total_unsuccessful_calls'', Empty),
      (''CustomerServiceInteractionRatio'', Empty),
      (''MinutesOverUsage'', Empty),
      (''TotalRevenueGenerated'', Empty),
      (''TotalCallFeaturesUsed'', Empty),
      (''RetentionCalls'', Empty),
      (''RetentionOffersAccepted'', Empty),
      (''MadeCallToRetentionTeam'', Empty),
      (''AdjustmentsToCreditRating'', Empty),
      (''MonthlyRevenue'', Empty),
      (''TotalRecurringCharge'', Empty),
      (''OverageMinutes'', Empty),
      (''MonthsInService'', Empty),
      (''PercChangeMinutes'', Empty),
      (''PercChangeRevenues'', Empty),
      (''HandsetPrice'', Empty),
      (''CreditRating'', Empty),
      (''IncomeGroup'', Empty),
      (''AgeHH1'', Empty),
      (''AgeHH2'', Empty),
      (''ChildrenInHH'', Empty)]"

text \<open>Each group is its title and its ordered field names.\<close>

definition fieldGroups :: "(string \<times> string list) list" where
  "fieldGroups =
     [(''Service Usage'',
       [''total_unsuccessful_calls'', ''MinutesOverUsage'', ''TotalCallFeaturesUsed'',
        ''OverageMinutes'']),
      (''Customer Service'',
       [''CustomerServiceInteractionRatio'', ''RetentionCalls'', ''RetentionOffersAccepted'',
        ''MadeCallToRetentionTeam'']),
      (''Financial Information'',
       [''TotalRevenueGenerated'', ''MonthlyRevenue'', ''TotalRecurringCharge'',
        ''AdjustmentsToCreditRating'']),
      (''Service History'',
       [''MonthsInService'', ''PercChangeMinutes'', ''PercChangeRevenues'', ''HandsetPrice'']),
      (''Customer Profile'',
       [''CreditRating'', ''IncomeGroup'', ''AgeHH1'', ''AgeHH2'', ''ChildrenInHH''])]"

text \<open>\<open>{ min?: number; max?: number }\<close>: an absent bound is \<open>None\<close> (\<open>undefined\<close>).\<close>

record constraints =
  min_c :: "jsnum option"
  max_c :: "jsnum option"

definition fieldConstraints :: "(string \<times> constraints) list" where
  "fieldConstraints =
     [(''total_unsuccessful_calls'', \<lparr> min_c = Some (Fin 0), max_c = None \<rparr>),
      (''CustomerServiceInteractionRatio'', \<lparr> min_c = Some (Fin 0), max_c = Some (Fin 1) \<rparr>),
      (''MinutesOverUsage'', \<lparr> min_c = Some (Fin 0), max_c = None \<rparr>),
      (''TotalRevenueGenerated'', \<lparr> min_c = Some (Fin 0), max_c = None \<rparr>),
      (''TotalCallFeaturesUsed'', \<lparr> min_c = Some (Fin 0), max_c = None \<rparr>),
      (''RetentionCalls'', \<lparr> min_c = Some (Fin 0), max_c = None \<rparr>),
      (''RetentionOffersAccepted'', \<lparr> min_c = Some (Fin 0), max_c = None \<rparr>),
      (''MadeCallToRetentionTeam'', \<lparr> min_c = Some (Fin 0), max_c = Some (Fin 1) \<rparr>),
      (''AdjustmentsToCreditRating'', \<lparr> min_c = Some (Fin 0), max_c = None \<rparr>),
      (''MonthlyRevenue'', \<lparr> min_c = Some (Fin 0), max_c = None \<rparr>),
      (''TotalRecurringCharge'', \<lparr> min_c = Some (Fin 0), max_c = None \<rparr>),
      (''OverageMinutes'', \<lparr> min_c = Some (Fin 0), max_c = None \<rparr>),
      (''MonthsInService'', \<lparr> min_c = Some (Fin 0), max_c = None \<rparr>),
      (''PercChangeMinutes'', \<lparr> min_c = Some (Fin (- 100)), max_c = Some (Fin 100) \<rparr>),
      (''PercChangeRevenues'', \<lparr> min_c = Some (Fin (- 100)), max_c = Some (Fin 100) \<rparr>),
      (''HandsetPrice'', \<lparr> min_c = Some (Fin 0), max_c = None \<rparr>),
      (''CreditRating'', \<lparr> min_c = Some (Fin 1), max_c = Some (Fin 5) \<rparr>),
      (''IncomeGroup'', \<lparr> min_c = Some (Fin 1), max_c = Some (Fin 5) \<rparr>),
      (''AgeHH1'', \<lparr> min_c = Some (Fin 0), max_c = Some (Fin 120) \<rparr>),
      (''AgeHH2'', \<lparr> min_c = Some (Fin 0), max_c = Some (Fin 120) \<rparr>),
      (''ChildrenInHH'', \<lparr> min_c = Some (Fin 0), max_c = None \<rparr>)]"

section \<open>The component state and its handlers\<close>

text \<open>The six \<open>useState\<close> cells of \<open>App\<close>; \<open>null\<close> is \<open>None\<close>.\<close>

record app_state =
  formData :: FormData
  prediction :: "PredictionResult option"
  loading :: bool
  error :: "string option"
  currentGroupIndex :: int
  showResults :: bool

definition initial_state :: app_state where
  "initial_state =
     \<lparr> formData = initialFormData, prediction = None, loading = False, error = None,
       currentGroupIndex = 0, showResults = False \<rparr>"

datatype js_error = TypeError

text \<open>
  The lookup \<open>fieldConstraints[name]\<close>. The table is a plain object, so besides its own
  21 entries it answers for the names every object inherits from \<open>Object.prototype\<close>:
  there the lookup yields a function (for \<open>__proto__\<close>, the prototype itself), a value
  on which \<open>min\<close> and \<open>max\<close> are both \<open>undefined\<close>. For any other name the lookup yields
  \<open>undefined\<close> (\<open>None\<close>).
\<close>

definition Object_prototype_names :: "string list" where
  "Object_prototype_names =
     [''constructor'', ''__defineGetter__'', ''__defineSetter__'', ''hasOwnProperty'',
      ''__lookupGetter__'', ''__lookupSetter__'', ''isPrototypeOf'', ''propertyIsEnumerable'',
      ''toString'', ''valueOf'', ''__proto__'', ''toLocaleString'']"

definition lookup_fieldConstraints :: "string \<Rightarrow> constraints option" where
  "lookup_fieldConstraints name =
     (case map_of fieldConstraints name of
        Some c \<Rightarrow> Some c
      | None \<Rightarrow>
          if name \<in> set Object_prototype_names then Some \<lparr> min_c = None, max_c = None \<rparr>
          else None)"

text \<open>
  \<open>handleInputChange\<close>, with \<open>name\<close> and \<open>value\<close> read from the event target and the
  built-in \<open>parseFloat\<close> taken as a parameter. When the lookup yields \<open>undefined\<close>,
  reading \<open>constraints.min\<close> raises a \<open>TypeError\<close>; that read happens only when the
  parsed value is a number.
\<close>

definition handleInputChange ::
  "(string \<Rightarrow> jsnum) \<Rightarrow> app_state \<Rightarrow> string \<Rightarrow> string \<Rightarrow> js_error + app_state" where
  "handleInputChange parseFloat s name val =
     (if val = [] then Inr (s\<lparr>formData := AList.update name Empty (formData s)\<rparr>)
      else
        let numValue = parseFloat val;
            constraints = lookup_fieldConstraints name
        in if \<not> isNaN numValue then
             (case constraints of
                None \<Rightarrow> Inl TypeError
              | Some c \<Rightarrow>
                  let finalValue = numValue;
                      finalValue =
                        (case min_c c of
                           Some lo \<Rightarrow> if js_lt numValue lo then lo else finalValue
                         | None \<Rightarrow> finalValue);
                      finalValue =
                        (case max_c c of
                           Some hi \<Rightarrow> if js_gt numValue hi then hi else finalValue
                         | None \<Rightarrow> finalValue)
                  in Inr (s\<lparr>formData := AList.update name (Num finalValue) (formData s)\<rparr>))
           else Inr s)"

text \<open>\<open>Object.values(formData).some(value => value === '')\<close>\<close>

definition hasEmptyFields :: "FormData \<Rightarrow> bool" where
  "hasEmptyFields fd = list_ex (\<lambda>v. v = Empty) (map snd fd)"

text \<open>
  \<open>handleSubmit\<close> is asynchronous. Its first part runs up to the \<open>await\<close> of \<open>fetch\<close>: it
  returns the new state and the body of the request it has issued, if any. The rest runs
  when the request settles, on the state of that moment (every setter it calls stores a
  fixed value). What \<open>try\<close> can see is one of four outcomes. The source stores whatever
  \<open>response.json()\<close> yields, unchecked: the body of an ok response is \<open>None\<close> when it is
  the JSON value \<open>null\<close>, and otherwise is taken at the type the source gives it,
  \<open>PredictionResult\<close> (no handler reads inside it).
\<close>

definition handleSubmit :: "app_state \<Rightarrow> app_state \<times> FormData option" where
  "handleSubmit s =
     (if hasEmptyFields (formData s) then
        (s\<lparr>error := Some ''Please fill in all fields before submitting.''\<rparr>, None)
      else (s\<lparr>loading := True, error := None\<rparr>, Some (formData s)))"

datatype outcome =
    Response_ok "PredictionResult option"  \<comment> \<open>\<open>response.ok\<close>, and \<open>response.json()\<close> gave this body\<close>
  | Response_not_ok  \<comment> \<open>\<open>!response.ok\<close>\<close>
  | Rejected_Error string  \<comment> \<open>\<open>fetch\<close> or \<open>json\<close> rejected with an \<open>Error\<close> of that message\<close>
  | Rejected_other  \<comment> \<open>rejected with a value that is not an \<open>Error\<close>\<close>

fun handleSubmit_settled :: "app_state \<Rightarrow> outcome \<Rightarrow> app_state" where
  "handleSubmit_settled s (Response_ok result) =
     s\<lparr>prediction := result, showResults := True, loading := False\<rparr>"
| "handleSubmit_settled s Response_not_ok =
     s\<lparr>error := Some ''Prediction request failed'', loading := False\<rparr>"
| "handleSubmit_settled s (Rejected_Error message) =
     s\<lparr>error := Some message, loading := False\<rparr>"
| "handleSubmit_settled s Rejected_other =
     s\<lparr>error := Some ''An error occurred'', loading := False\<rparr>"

definition nextGroup :: "app_state \<Rightarrow> app_state \<times> FormData option" where
  "nextGroup s =
     (if currentGroupIndex s < int (length fieldGroups) - 1
      then (s\<lparr>currentGroupIndex := currentGroupIndex s + 1\<rparr>, None)
      else handleSubmit s)"

definition prevGroup :: "app_state \<Rightarrow> app_state" where
  "prevGroup s =
     (if currentGroupIndex s > 0 then s\<lparr>currentGroupIndex := currentGroupIndex s - 1\<rparr> else s)"

definition resetForm :: "app_state \<Rightarrow> app_state" where
  "resetForm s =
     s\<lparr>formData := initialFormData, prediction := None, currentGroupIndex := 0,
       showResults := False, error := None\<rparr>"

section \<open>The rendered component as a transition system\<close>

text \<open>
  A configuration is the component state together with the bodies of the requests that
  have been issued and have not settled yet.

  The events are those the rendered page can deliver. The button bound to
  \<open>nextGroup\<close> is rendered only in the branch \<open>!showResults\<close> and carries
  \<open>disabled={loading}\<close>, so its click reaches \<open>nextGroup\<close> only when both flags are false.
  The other events are admitted in every state, which can only enlarge the set of
  reachable configurations: an edit of any name with any text, \<open>prevGroup\<close>, \<open>resetForm\<close>,
  and the settling of the \<open>n\<close>-th outstanding request with any outcome. An edit whose
  handler raises leaves the state as it was.
\<close>

record config =
  ui :: app_state
  in_flight :: "FormData list"

definition initial_config :: config where
  "initial_config = \<lparr> ui = initial_state, in_flight = [] \<rparr>"

datatype event =
    InputChange string string
  | NextClick
  | PrevClick
  | Reset
  | Settle nat outcome

definition issue :: "config \<Rightarrow> app_state \<times> FormData option \<Rightarrow> config" where
  "issue c r =
     (case r of
        (s, None) \<Rightarrow> c\<lparr>ui := s\<rparr>
      | (s, Some body) \<Rightarrow> c\<lparr>ui := s, in_flight := in_flight c @ [body]\<rparr>)"

fun step :: "(string \<Rightarrow> jsnum) \<Rightarrow> config \<Rightarrow> event \<Rightarrow> config" where
  "step parseFloat c (InputChange name val) =
     (case handleInputChange parseFloat (ui c) name val of
        Inl e \<Rightarrow> c
      | Inr s \<Rightarrow> c\<lparr>ui := s\<rparr>)"
| "step parseFloat c NextClick =
     (if \<not> showResults (ui c) \<and> \<not> loading (ui c) then issue c (nextGroup (ui c)) else c)"
| "step parseFloat c PrevClick = c\<lparr>ui := prevGroup (ui c)\<rparr>"
| "step parseFloat c Reset = c\<lparr>ui := resetForm (ui c)\<rparr>"
| "step parseFloat c (Settle n out) =
     (if n < length (in_flight c)
      then \<lparr> ui = handleSubmit_settled (ui c) out,
             in_flight = take n (in_flight c) @ drop (Suc n) (in_flight c) \<rparr>
      else c)"

definition run :: "(string \<Rightarrow> jsnum) \<Rightarrow> config \<Rightarrow> event list \<Rightarrow> config" where
  "run parseFloat c evs = foldl (step parseFloat) c evs"

section \<open>Bounds, the life-cycle invariant and sample inputs\<close>

text \<open>
  A number lies within declared bounds when it is a number at all, not less than a
  declared minimum and not greater than a declared maximum; a stored field value respects
  the bounds when it is the empty string or such a number. \<open>below_min\<close> and \<open>above_max\<close>
  say that a minimum (a maximum) is declared and the number is below (above) it.
\<close>

definition in_bounds :: "constraints \<Rightarrow> jsnum \<Rightarrow> bool" where
  "in_bounds c x =
     (\<not> isNaN x
      \<and> (case min_c c of None \<Rightarrow> True | Some lo \<Rightarrow> js_le lo x)
      \<and> (case max_c c of None \<Rightarrow> True | Some hi \<Rightarrow> js_le x hi))"

definition below_min :: "constraints \<Rightarrow> jsnum \<Rightarrow> bool" where
  "below_min c x = (case min_c c of None \<Rightarrow> False | Some lo \<Rightarrow> js_lt x lo)"

definition above_max :: "constraints \<Rightarrow> jsnum \<Rightarrow> bool" where
  "above_max c x = (case max_c c of None \<Rightarrow> False | Some hi \<Rightarrow> js_gt x hi)"

fun stored_ok :: "constraints \<Rightarrow> field_value \<Rightarrow> bool" where
  "stored_ok c Empty = True"
| "stored_ok c (Num x) = in_bounds c x"

definition fields_ok :: "FormData \<Rightarrow> bool" where
  "fields_ok fd =
     (\<forall>name c. map_of fieldConstraints name = Some c \<longrightarrow>
        (\<exists>v. map_of fd name = Some v \<and> stored_ok c v))"

text \<open>
  What holds of every configuration the page can reach: at most one request is
  outstanding, \<open>loading\<close> is true exactly while one is, no error is stored and the form is
  shown during that time, and the results view comes without an error. \<open>null_body\<close>
  singles out the settling of a request by an ok response whose body is \<open>null\<close>.
\<close>

definition lifecycle_inv :: "config \<Rightarrow> bool" where
  "lifecycle_inv c =
     (length (in_flight c) \<le> 1
      \<and> loading (ui c) = (in_flight c \<noteq> [])
      \<and> (in_flight c \<noteq> [] \<longrightarrow> error (ui c) = None \<and> \<not> showResults (ui c))
      \<and> (showResults (ui c) \<longrightarrow> error (ui c) = None))"


text \<open>
  Sample inputs. \<open>parseFloat_sample\<close> has the values of \<open>parseFloat\<close> on the three texts the
  examples type into a field, and is not a number elsewhere. \<open>fill_events\<close> types \<open>1\<close> into
  each of the 21 fields and clicks through to the last group; \<open>filled_state\<close> is the state
  this leads to.
\<close>

definition parseFloat_sample :: "string \<Rightarrow> jsnum" where
  "parseFloat_sample v =
     (if v = ''1'' then Fin 1
      else if v = ''150'' then Fin 150
      else if v = ''-7'' then Fin (- 7)
      else NaN)"

definition fill_events :: "event list" where
  "fill_events = map (\<lambda>(k, v). InputChange k ''1'') initialFormData @ replicate 4 NextClick"

definition filled_state :: app_state where
  "filled_state =
     \<lparr> formData = map (\<lambda>(k, v). (k, Num (Fin 1))) initialFormData, prediction = None,
       loading = False, error = None, currentGroupIndex = 4, showResults = False \<rparr>"

definition sample_result :: PredictionResult where
  "sample_result = \<lparr> predicted_churn = Fin 1, churn_probability = Fin 0.85 \<rparr>"

section \<open>Risk tier and action plan\<close>

text \<open>
  Claim C7. For every probability \<open>p\<close>, \<open>getChurnRiskColor\<close> gives the low tier (the green
  classes) when \<open>p < 0.3\<close>, the medium tier (the yellow classes) when \<open>0.3 \<le> p < 0.7\<close> and
  the high tier (the red classes) when \<open>p \<ge> 0.7\<close>; at the five points \<open>0.0\<close>, \<open>0.3\<close>,
  \<open>0.69\<close>, \<open>0.7\<close>, \<open>1.0\<close> the tiers are low, medium, medium, high, high.
\<close>

theorem getChurnRiskColor_tiers:
  "(js_lt p (Fin 0.3) \<longrightarrow> getChurnRiskColor p = ''bg-green-100 text-green-800'')
   \<and> (js_le (Fin 0.3) p \<and> js_lt p (Fin 0.7) \<longrightarrow>
        getChurnRiskColor p = ''bg-yellow-100 text-yellow-800'')
   \<and> (js_le (Fin 0.7) p \<longrightarrow> getChurnRiskColor p = ''bg-red-100 text-red-800'')
   \<and> getChurnRiskColor (Fin 0.0) = ''bg-green-100 text-green-800''
   \<and> getChurnRiskColor (Fin 0.3) = ''bg-yellow-100 text-yellow-800''
   \<and> getChurnRiskColor (Fin 0.69) = ''bg-yellow-100 text-yellow-800''
   \<and> getChurnRiskColor (Fin 0.7) = ''bg-red-100 text-red-800''
   \<and> getChurnRiskColor (Fin 1.0) = ''bg-red-100 text-red-800''"
  by (cases p) (simp_all add: getChurnRiskColor_def)

theorem getChurnRiskColor_tiers_witness:
  "js_lt (Fin 0.1) (Fin 0.3)
   \<and> getChurnRiskColor (Fin 0.1) = ''bg-green-100 text-green-800''
   \<and> js_le (Fin 0.3) (Fin 0.5) \<and> js_lt (Fin 0.5) (Fin 0.7)
   \<and> getChurnRiskColor (Fin 0.5) = ''bg-yellow-100 text-yellow-800''
   \<and> js_le (Fin 0.7) (Fin 0.9)
   \<and> getChurnRiskColor (Fin 0.9) = ''bg-red-100 text-red-800''"
  using getChurnRiskColor_tiers [of "Fin 0.1"] getChurnRiskColor_tiers [of "Fin 0.5"]
    getChurnRiskColor_tiers [of "Fin 0.9"]
  by simp

text \<open>
  Claim C6. For every probability \<open>p\<close>, \<open>getRecommendedActions\<close> returns a title and exactly
  four steps; the title is the critical one when \<open>p > 0.7\<close>, the preventive one when
  \<open>0.4 < p \<le> 0.7\<close> and the growth one when \<open>p \<le> 0.4\<close>. At \<open>0.8\<close>, \<open>0.5\<close> and \<open>0.4\<close> the
  titles are critical, preventive and growth: the bound \<open>0.4\<close> belongs to the growth tier.
\<close>

theorem getRecommendedActions_tiers:
  "length (steps (getRecommendedActions p)) = 4
   \<and> (js_gt p (Fin 0.7) \<longrightarrow>
        title (getRecommendedActions p) = ''Critical Retention Actions Required'')
   \<and> (js_gt p (Fin 0.4) \<and> js_le p (Fin 0.7) \<longrightarrow>
        title (getRecommendedActions p) = ''Preventive Measures Recommended'')
   \<and> (js_le p (Fin 0.4) \<longrightarrow>
        title (getRecommendedActions p) = ''Growth Opportunity Identified'')
   \<and> title (getRecommendedActions (Fin 0.8)) = ''Critical Retention Actions Required''
   \<and> title (getRecommendedActions (Fin 0.5)) = ''Preventive Measures Recommended''
   \<and> title (getRecommendedActions (Fin 0.4)) = ''Growth Opportunity Identified''"
  by (cases p) (simp_all add: getRecommendedActions_def js_gt_def)

theorem getRecommendedActions_tiers_witness:
  "js_gt (Fin 0.9) (Fin 0.7)
   \<and> title (getRecommendedActions (Fin 0.9)) = ''Critical Retention Actions Required''
   \<and> js_gt (Fin 0.6) (Fin 0.4) \<and> js_le (Fin 0.6) (Fin 0.7)
   \<and> title (getRecommendedActions (Fin 0.6)) = ''Preventive Measures Recommended''
   \<and> js_le (Fin 0.2) (Fin 0.4)
   \<and> title (getRecommendedActions (Fin 0.2)) = ''Growth Opportunity Identified''"
  using getRecommendedActions_tiers [of "Fin 0.9"] getRecommendedActions_tiers [of "Fin 0.6"]
    getRecommendedActions_tiers [of "Fin 0.2"]
  by (simp add: js_gt_def)

section \<open>The sample trace\<close>

lemma run_fill_events:
  "run parseFloat_sample initial_config fill_events = \<lparr> ui = filled_state, in_flight = [] \<rparr>"
  by code_simp

lemma run_submit:
  "run parseFloat_sample initial_config (fill_events @ [NextClick]) =
     \<lparr> ui = filled_state\<lparr>loading := True\<rparr>, in_flight = [formData filled_state] \<rparr>"
  by code_simp

lemma run_snoc: "run pf c (evs @ [ev]) = step pf (run pf c evs) ev"
  by (simp add: run_def)

section \<open>Submission\<close>

lemma hasEmptyFields_iff: "hasEmptyFields fd \<longleftrightarrow> Empty \<in> snd ` set fd"
  by (auto simp: hasEmptyFields_def list_ex_iff)

text \<open>
  Claim C5. If some field of the form is unset, \<open>handleSubmit\<close> stops at once: it stores
  the message asking to fill in all fields, issues no request, and leaves \<open>showResults\<close>
  (and \<open>loading\<close>) as they were; a click on the button then adds no outstanding request
  either. A request is issued exactly when no field is unset, and it carries the form.
\<close>

theorem handleSubmit_incomplete_record:
  "(Empty \<in> snd ` set (formData s) \<longrightarrow>
      handleSubmit s = (s\<lparr>error := Some ''Please fill in all fields before submitting.''\<rparr>, None)
      \<and> showResults (fst (handleSubmit s)) = showResults s
      \<and> loading (fst (handleSubmit s)) = loading s
      \<and> (\<not> currentGroupIndex s < 4 \<longrightarrow> nextGroup s = handleSubmit s))
   \<and> (Empty \<in> snd ` set (formData (ui c)) \<longrightarrow>
        in_flight (step pf c NextClick) = in_flight c
        \<and> showResults (ui (step pf c NextClick)) = showResults (ui c))
   \<and> (snd (handleSubmit s) \<noteq> None \<longleftrightarrow> Empty \<notin> snd ` set (formData s))
   \<and> (Empty \<notin> snd ` set (formData s) \<longrightarrow>
        handleSubmit s = (s\<lparr>loading := True, error := None\<rparr>, Some (formData s)))"
  by (simp add: handleSubmit_def hasEmptyFields_iff nextGroup_def fieldGroups_def issue_def)

theorem handleSubmit_incomplete_record_witness:
  "Empty \<in> snd ` set (formData initial_state)
   \<and> handleSubmit initial_state =
       (initial_state\<lparr>error := Some ''Please fill in all fields before submitting.''\<rparr>, None)
   \<and> Empty \<notin> snd ` set (formData filled_state)
   \<and> handleSubmit filled_state =
       (filled_state\<lparr>loading := True, error := None\<rparr>, Some (formData filled_state))"
proof -
  have a: "Empty \<in> snd ` set (formData initial_state)"
    by (simp add: initial_state_def initialFormData_def)
  have b: "Empty \<notin> snd ` set (formData filled_state)"
    by (simp add: filled_state_def initialFormData_def)
  show ?thesis
    using a b handleSubmit_incomplete_record [of initial_state]
      handleSubmit_incomplete_record [of filled_state]
    by simp
qed

text \<open>
  Claim C1. With all 21 fields filled in and the last group shown, the request is issued;
  when it then fails (a response that is not ok, or a rejected promise) the message is
  stored and \<open>loading\<close> is false again, but \<open>showResults\<close> stays false: the failure branch
  never writes it, so the page keeps showing the form and the stored message, which is
  rendered in the results view only, is not displayed.
\<close>

theorem handleSubmit_failure_showResults:
  "\<not> hasEmptyFields (formData filled_state)
   \<and> handleSubmit filled_state = (filled_state\<lparr>loading := True\<rparr>, Some (formData filled_state))
   \<and> handleSubmit_settled (filled_state\<lparr>loading := True\<rparr>) Response_not_ok =
       filled_state\<lparr>error := Some ''Prediction request failed''\<rparr>
   \<and> \<not> showResults (handleSubmit_settled (filled_state\<lparr>loading := True\<rparr>) Response_not_ok)
   \<and> \<not> showResults
         (handleSubmit_settled (filled_state\<lparr>loading := True\<rparr>) (Rejected_Error ''Failed to fetch''))
   \<and> \<not> showResults (handleSubmit_settled (filled_state\<lparr>loading := True\<rparr>) Rejected_other)
   \<and> showResults
        (ui (run parseFloat_sample initial_config
               (fill_events @ [NextClick, Settle 0 Response_not_ok]))) = False"
  by code_simp

section \<open>The life-cycle invariant\<close>

lemma handleInputChange_frame:
  assumes "handleInputChange pf s name val = Inr s'"
  shows "\<exists>fd. s' = s\<lparr>formData := fd\<rparr>"
proof (cases "val = []")
  case True
  with assms show ?thesis by (auto simp: handleInputChange_def)
next
  case False
  show ?thesis
  proof (cases "isNaN (pf val)")
    case True
    with False assms have "s' = s" by (simp add: handleInputChange_def)
    then have "s' = s\<lparr>formData := formData s\<rparr>" by simp
    then show ?thesis ..
  next
    case nan: False
    with False assms show ?thesis
      by (auto simp: handleInputChange_def Let_def split: option.splits)
  qed
qed

lemma step_lifecycle_inv:
  assumes "lifecycle_inv c"
  shows "lifecycle_inv (step pf c ev)"
proof (cases ev)
  case (InputChange name val)
  show ?thesis
  proof (cases "handleInputChange pf (ui c) name val")
    case (Inl e)
    with InputChange assms show ?thesis by simp
  next
    case (Inr s')
    from handleInputChange_frame [OF Inr] obtain fd where "s' = (ui c)\<lparr>formData := fd\<rparr>" ..
    with InputChange Inr assms show ?thesis by (simp add: lifecycle_inv_def)
  qed
next
  case NextClick
  with assms show ?thesis
    by (auto simp: lifecycle_inv_def nextGroup_def handleSubmit_def issue_def)
next
  case PrevClick
  with assms show ?thesis by (simp add: lifecycle_inv_def prevGroup_def)
next
  case Reset
  with assms show ?thesis by (simp add: lifecycle_inv_def resetForm_def)
next
  case (Settle n out)
  show ?thesis
  proof (cases "n < length (in_flight c)")
    case False
    with Settle assms show ?thesis by simp
  next
    case True
    with assms have n: "n = 0" and len: "length (in_flight c) = 1"
      by (auto simp: lifecycle_inv_def)
    from len obtain b where b: "in_flight c = [b]"
      by (cases "in_flight c") auto
    with assms have pre: "error (ui c) = None" "\<not> showResults (ui c)"
      by (auto simp: lifecycle_inv_def)
    from Settle n b pre show ?thesis
      by (cases out) (simp_all add: lifecycle_inv_def)
  qed
qed

lemma run_lifecycle_inv: "lifecycle_inv c \<Longrightarrow> lifecycle_inv (run pf c evs)"
  by (induction evs rule: rev_induct) (simp_all add: run_def step_lifecycle_inv)

lemma initial_lifecycle_inv: "lifecycle_inv initial_config"
  by (simp add: lifecycle_inv_def initial_config_def initial_state_def)






lemma results_view_idle:
  "showResults (ui (run pf initial_config evs)) \<Longrightarrow>
     in_flight (run pf initial_config evs) = [] \<and> \<not> loading (ui (run pf initial_config evs))"
  using run_lifecycle_inv [OF initial_lifecycle_inv, of pf evs]
  by (auto simp: lifecycle_inv_def)

section \<open>Reset\<close>

lemma initialFormData_shape:
  "length initialFormData = 21 \<and> map snd initialFormData = replicate 21 Empty"
  by code_simp

text \<open>
  Claim C9. From every state, \<open>resetForm\<close> yields the initial values of the group index
  (0), of \<open>showResults\<close> (false), of the result and of the error (both unset), and the
  initial form, whose 21 fields are all unset. The one remaining cell, \<open>loading\<close>, is
  not written: the state after a reset is the initial state with \<open>loading\<close> as it was.
  On the page the reset button is rendered in the results view only, and in every state
  reached there \<open>loading\<close> is false, so the state after a click on it is the initial
  state in every cell.
\<close>

theorem resetForm_initial:
  "currentGroupIndex (resetForm s) = 0
   \<and> \<not> showResults (resetForm s)
   \<and> prediction (resetForm s) = None
   \<and> error (resetForm s) = None
   \<and> formData (resetForm s) = initialFormData
   \<and> length initialFormData = 21
   \<and> map snd initialFormData = replicate 21 Empty
   \<and> resetForm s = initial_state\<lparr>loading := loading s\<rparr>
   \<and> (showResults (ui (run pf initial_config evs)) \<longrightarrow>
        resetForm (ui (run pf initial_config evs)) = initial_state)"
proof -
  have a: "resetForm s = initial_state\<lparr>loading := loading s\<rparr>" for s
    by (simp add: resetForm_def initial_state_def)
  have b: "resetForm (ui (run pf initial_config evs)) = initial_state"
    if "showResults (ui (run pf initial_config evs))"
  proof -
    from results_view_idle [OF that] have "\<not> loading (ui (run pf initial_config evs))" ..
    then show ?thesis by (simp add: a initial_state_def)
  qed
  from a [of s] have c: "currentGroupIndex (resetForm s) = 0 \<and> \<not> showResults (resetForm s)
      \<and> prediction (resetForm s) = None \<and> error (resetForm s) = None
      \<and> formData (resetForm s) = initialFormData"
    by (simp add: initial_state_def)
  from a [of s] b c initialFormData_shape show ?thesis by simp
qed

theorem resetForm_initial_witness:
  "showResults (ui (run parseFloat_sample initial_config
       (fill_events @ [NextClick, Settle 0 (Response_ok (Some sample_result))])))
   \<and> resetForm (ui (run parseFloat_sample initial_config
       (fill_events @ [NextClick, Settle 0 (Response_ok (Some sample_result))]))) = initial_state"
proof -
  have a: "showResults (ui (run parseFloat_sample initial_config
       (fill_events @ [NextClick, Settle 0 (Response_ok (Some sample_result))])))"
    by code_simp
  show ?thesis
    using a resetForm_initial [where s = initial_state and pf = parseFloat_sample
        and evs = "fill_events @ [NextClick, Settle 0 (Response_ok (Some sample_result))]"]
    by blast
qed

section \<open>Requests in flight\<close>

text \<open>
  Claim C10. \<open>resetForm\<close> does not write \<open>loading\<close>: it is after the reset what it was
  before, and the outstanding requests stay outstanding. While \<open>loading\<close> is true no
  event other than the settling of a request makes it false; the part of \<open>handleSubmit\<close>
  that runs when the request settles sets it to false, whatever the outcome.
\<close>

theorem resetForm_keeps_loading:
  "loading (resetForm s) = loading s
   \<and> in_flight (step pf c Reset) = in_flight c
   \<and> loading (ui (step pf c Reset)) = loading (ui c)
   \<and> loading (handleSubmit_settled s out) = False
   \<and> (loading (ui c) \<and> (\<forall>n out. ev \<noteq> Settle n out) \<longrightarrow> loading (ui (step pf c ev)))"
proof -
  have a: "loading (resetForm s) = loading s" for s
    by (simp add: resetForm_def)
  have b: "loading (handleSubmit_settled s out) = False"
    by (cases out) simp_all
  have c: "loading (ui (step pf c ev))" if "loading (ui c)" "\<forall>n out. ev \<noteq> Settle n out"
  proof (cases ev)
    case (InputChange name val)
    show ?thesis
    proof (cases "handleInputChange pf (ui c) name val")
      case (Inl e)
      with InputChange that show ?thesis by simp
    next
      case (Inr s')
      from handleInputChange_frame [OF Inr] obtain fd where "s' = (ui c)\<lparr>formData := fd\<rparr>" ..
      with InputChange Inr that show ?thesis by simp
    qed
  next
    case NextClick
    then show ?thesis using that by simp
  next
    case PrevClick
    then show ?thesis using that by (simp add: prevGroup_def)
  next
    case Reset
    then show ?thesis using that by (simp add: a)
  next
    case (Settle n out)
    then show ?thesis using that by simp
  qed
  show ?thesis using a b c by simp
qed

theorem resetForm_keeps_loading_witness:
  "loading (ui (run parseFloat_sample initial_config (fill_events @ [NextClick])))
   \<and> loading (ui (step parseFloat_sample
         (run parseFloat_sample initial_config (fill_events @ [NextClick])) Reset))
   \<and> \<not> loading (handleSubmit_settled
         (ui (step parseFloat_sample
            (run parseFloat_sample initial_config (fill_events @ [NextClick])) Reset))
         (Response_ok (Some sample_result)))"
proof -
  have a: "loading (ui (run parseFloat_sample initial_config (fill_events @ [NextClick])))"
    by (simp add: run_submit)
  show ?thesis
    using a resetForm_keeps_loading
      [where pf = parseFloat_sample
         and c = "run parseFloat_sample initial_config (fill_events @ [NextClick])"
         and s = "ui (step parseFloat_sample
            (run parseFloat_sample initial_config (fill_events @ [NextClick])) Reset)"
         and out = "Response_ok (Some sample_result)" and ev = Reset]
    by simp
qed

lemma step_while_loading:
  assumes "loading (ui c)" and "\<forall>n out. ev \<noteq> Settle n out"
  shows "in_flight (step pf c ev) = in_flight c"
proof (cases ev)
  case (InputChange name val)
  then show ?thesis
    by (cases "handleInputChange pf (ui c) name val") simp_all
next
  case NextClick
  with assms show ?thesis by simp
next
  case PrevClick
  then show ?thesis by simp
next
  case Reset
  then show ?thesis by simp
next
  case (Settle n out)
  with assms show ?thesis by simp
qed

text \<open>
  Claim C3. The one trigger of a submission is the button bound to \<open>nextGroup\<close>, and it
  carries \<open>disabled={loading}\<close>. Whenever \<open>loading\<close> is true a click on it is a no-op: the
  state is unchanged and no request is issued. More generally, while \<open>loading\<close> is true no
  event but the settling of a request changes the outstanding requests, and in every
  configuration the page reaches at most one request is outstanding, \<open>loading\<close> being true
  exactly then.
\<close>

theorem NextClick_while_loading:
  "(loading (ui c) \<longrightarrow> step pf c NextClick = c)
   \<and> (loading (ui c) \<and> (\<forall>n out. ev \<noteq> Settle n out) \<longrightarrow>
        in_flight (step pf c ev) = in_flight c)
   \<and> length (in_flight (run pf initial_config evs)) \<le> 1
   \<and> loading (ui (run pf initial_config evs)) = (in_flight (run pf initial_config evs) \<noteq> [])"
proof -
  have a: "loading (ui c) \<longrightarrow> step pf c NextClick = c"
    by simp
  have b: "loading (ui c) \<and> (\<forall>n out. ev \<noteq> Settle n out) \<longrightarrow>
             in_flight (step pf c ev) = in_flight c"
    using step_while_loading by blast
  have c: "length (in_flight (run pf initial_config evs)) \<le> 1
           \<and> loading (ui (run pf initial_config evs)) =
               (in_flight (run pf initial_config evs) \<noteq> [])"
    using run_lifecycle_inv [OF initial_lifecycle_inv, of pf evs]
    by (simp add: lifecycle_inv_def)
  from a b c show ?thesis by (intro conjI) simp_all
qed

theorem NextClick_while_loading_witness:
  "loading (ui (run parseFloat_sample initial_config (fill_events @ [NextClick])))
   \<and> step parseFloat_sample (run parseFloat_sample initial_config (fill_events @ [NextClick]))
        NextClick =
       run parseFloat_sample initial_config (fill_events @ [NextClick])
   \<and> in_flight
        (step parseFloat_sample (run parseFloat_sample initial_config (fill_events @ [NextClick]))
           NextClick) =
       [formData filled_state]"
proof -
  have a: "loading (ui (run parseFloat_sample initial_config (fill_events @ [NextClick])))"
    by (simp add: run_submit)
  have b: "in_flight (run parseFloat_sample initial_config (fill_events @ [NextClick])) =
             [formData filled_state]"
    by (simp add: run_submit)
  show ?thesis
    using a b NextClick_while_loading
      [where pf = parseFloat_sample
         and c = "run parseFloat_sample initial_config (fill_events @ [NextClick])"
         and ev = NextClick and evs = "[]"]
    by simp
qed




section \<open>Edits\<close>

lemma fieldConstraints_shape:
  assumes "map_of fieldConstraints name = Some c"
  shows "\<exists>lo. min_c c = Some (Fin lo)
           \<and> (max_c c = None \<or> (\<exists>hi. max_c c = Some (Fin hi) \<and> lo \<le> hi))"
proof -
  from assms have "(name, c) \<in> set fieldConstraints"
    by (rule map_of_SomeD)
  then show ?thesis
    by (auto simp: fieldConstraints_def)
qed

lemma fieldConstraints_initialFormData:
  assumes "map_of fieldConstraints name = Some c"
  shows "map_of initialFormData name = Some Empty"
proof -
  from assms have "(name, c) \<in> set fieldConstraints"
    by (rule map_of_SomeD)
  then have "name \<in> fst ` set fieldConstraints"
    by force
  also have "fst ` set fieldConstraints = fst ` set initialFormData"
    by (simp add: fieldConstraints_def initialFormData_def)
  finally have "name \<in> fst ` set initialFormData" .
  then obtain v where v: "map_of initialFormData name = Some v"
    by (metis domD dom_map_of_conv_image_fst)
  then have "(name, v) \<in> set initialFormData"
    by (rule map_of_SomeD)
  then have "v \<in> snd ` set initialFormData"
    by force
  also have "snd ` set initialFormData = {Empty}"
    by (simp add: initialFormData_def)
  finally show ?thesis using v by simp
qed


lemma lookup_fieldConstraints_known:
  "map_of fieldConstraints name = Some c \<Longrightarrow> lookup_fieldConstraints name = Some c"
  by (simp add: lookup_fieldConstraints_def)

lemma handleInputChange_inherited_name:
  "handleInputChange parseFloat_sample initial_state ''constructor'' ''-7'' =
     Inr (initial_state\<lparr>formData := initialFormData @ [(''constructor'', Num (Fin (- 7)))]\<rparr>)
   \<and> handleInputChange parseFloat_sample initial_state ''no_such_field'' ''-7'' = Inl TypeError"
  by code_simp

lemma handleInputChange_cases:
  assumes "handleInputChange pf s name val = Inr s'"
  shows "s' = s \<or> (\<exists>v. s' = s\<lparr>formData := AList.update name v (formData s)\<rparr>)"
proof (cases "val = []")
  case True
  with assms show ?thesis by (auto simp: handleInputChange_def)
next
  case False
  show ?thesis
  proof (cases "isNaN (pf val)")
    case True
    with False assms show ?thesis by (simp add: handleInputChange_def)
  next
    case nan: False
    with False assms show ?thesis
      by (auto simp: handleInputChange_def Let_def split: option.splits)
  qed
qed

lemma handleInputChange_others:
  assumes "handleInputChange pf s name val = Inr s'" and "k \<noteq> name"
  shows "map_of (formData s') k = map_of (formData s) k"
  using handleInputChange_cases [OF assms(1)] assms(2)
  by (auto simp: update_conv')

lemma handleInputChange_empty:
  "handleInputChange pf s name [] = Inr (s\<lparr>formData := AList.update name Empty (formData s)\<rparr>)"
  by (simp add: handleInputChange_def)

lemma handleInputChange_NaN:
  "val \<noteq> [] \<Longrightarrow> isNaN (pf val) \<Longrightarrow> handleInputChange pf s name val = Inr s"
  by (simp add: handleInputChange_def)

lemma handleInputChange_number:
  assumes c: "map_of fieldConstraints name = Some c"
    and val: "val \<noteq> []" and num: "\<not> isNaN (pf val)"
  shows "\<exists>x. handleInputChange pf s name val =
               Inr (s\<lparr>formData := AList.update name (Num x) (formData s)\<rparr>)
           \<and> in_bounds c x
           \<and> (below_min c (pf val) \<longrightarrow> min_c c = Some x)
           \<and> (above_max c (pf val) \<longrightarrow> max_c c = Some x)
           \<and> (\<not> below_min c (pf val) \<and> \<not> above_max c (pf val) \<longrightarrow> x = pf val)"
proof -
  from fieldConstraints_shape [OF c] obtain lo
    where lo: "min_c c = Some (Fin lo)"
      and hi: "max_c c = None \<or> (\<exists>hi. max_c c = Some (Fin hi) \<and> lo \<le> hi)"
    by blast
  from hi show ?thesis
  proof
    assume none: "max_c c = None"
    from c val num lo none show ?thesis
      by (cases "pf val")
        (auto simp: handleInputChange_def lookup_fieldConstraints_known Let_def isNaN_def
          in_bounds_def js_gt_def below_min_def above_max_def)
  next
    assume "\<exists>hi. max_c c = Some (Fin hi) \<and> lo \<le> hi"
    then obtain hi where some: "max_c c = Some (Fin hi)" and le: "lo \<le> hi"
      by blast
    from c val num lo some le show ?thesis
      by (cases "pf val")
        (auto simp: handleInputChange_def lookup_fieldConstraints_known Let_def isNaN_def
          in_bounds_def js_gt_def below_min_def above_max_def)
  qed
qed

lemma handleInputChange_field:
  assumes c: "map_of fieldConstraints name = Some c"
  shows "\<exists>s'. handleInputChange pf s name val = Inr s'
           \<and> (val = [] \<longrightarrow> map_of (formData s') name = Some Empty)
           \<and> (val \<noteq> [] \<and> isNaN (pf val) \<longrightarrow> s' = s)
           \<and> (val \<noteq> [] \<and> \<not> isNaN (pf val) \<longrightarrow>
                (\<exists>x. map_of (formData s') name = Some (Num x) \<and> in_bounds c x
                   \<and> (below_min c (pf val) \<longrightarrow> min_c c = Some x)
                   \<and> (above_max c (pf val) \<longrightarrow> max_c c = Some x)
                   \<and> (\<not> below_min c (pf val) \<and> \<not> above_max c (pf val) \<longrightarrow> x = pf val)))"
proof (cases "val = []")
  case True
  then show ?thesis by (simp add: handleInputChange_empty update_conv')
next
  case False
  show ?thesis
  proof (cases "isNaN (pf val)")
    case True
    with False show ?thesis by (simp add: handleInputChange_NaN)
  next
    case num: False
    from handleInputChange_number [where pf = pf and val = val and s = s, OF c False num]
    obtain x
      where r: "handleInputChange pf s name val =
               Inr (s\<lparr>formData := AList.update name (Num x) (formData s)\<rparr>)"
        and x: "in_bounds c x"
          "below_min c (pf val) \<longrightarrow> min_c c = Some x"
          "above_max c (pf val) \<longrightarrow> max_c c = Some x"
          "\<not> below_min c (pf val) \<and> \<not> above_max c (pf val) \<longrightarrow> x = pf val"
      by blast
    define s' where "s' = s\<lparr>formData := AList.update name (Num x) (formData s)\<rparr>"
    have "map_of (formData s') name = Some (Num x)"
      by (simp add: s'_def update_conv')
    with x have "\<exists>y. map_of (formData s') name = Some (Num y) \<and> in_bounds c y
                   \<and> (below_min c (pf val) \<longrightarrow> min_c c = Some y)
                   \<and> (above_max c (pf val) \<longrightarrow> max_c c = Some y)
                   \<and> (\<not> below_min c (pf val) \<and> \<not> above_max c (pf val) \<longrightarrow> y = pf val)"
      by blast
    with r False num show ?thesis
      unfolding s'_def [symmetric] by simp
  qed
qed

lemma handleInputChange_stored_ok:
  assumes c: "map_of fieldConstraints name = Some c"
    and r: "handleInputChange pf s name val = Inr s'"
    and ok: "\<exists>v. map_of (formData s) name = Some v \<and> stored_ok c v"
  shows "\<exists>v. map_of (formData s') name = Some v \<and> stored_ok c v"
proof (cases "val = []")
  case True
  with r show ?thesis by (auto simp: handleInputChange_empty update_conv')
next
  case False
  show ?thesis
  proof (cases "isNaN (pf val)")
    case True
    with False r ok show ?thesis by (simp add: handleInputChange_NaN)
  next
    case num: False
    from handleInputChange_number [where pf = pf and val = val and s = s, OF c False num]
    obtain x
      where "handleInputChange pf s name val =
               Inr (s\<lparr>formData := AList.update name (Num x) (formData s)\<rparr>)"
        and "in_bounds c x"
      by blast
    with r show ?thesis by (auto simp: update_conv')
  qed
qed

lemma handleInputChange_fields_ok:
  assumes r: "handleInputChange pf s name val = Inr s'" and ok: "fields_ok (formData s)"
  shows "fields_ok (formData s')"
  unfolding fields_ok_def
proof (intro allI impI)
  fix k c
  assume k: "map_of fieldConstraints k = Some c"
  with ok have pre: "\<exists>v. map_of (formData s) k = Some v \<and> stored_ok c v"
    by (simp add: fields_ok_def)
  show "\<exists>v. map_of (formData s') k = Some v \<and> stored_ok c v"
  proof (cases "k = name")
    case True
    with k r pre show ?thesis using handleInputChange_stored_ok by blast
  next
    case False
    with r pre show ?thesis by (simp add: handleInputChange_others)
  qed
qed

lemma fields_ok_initialFormData: "fields_ok initialFormData"
  by (simp add: fields_ok_def fieldConstraints_initialFormData)

lemma step_fields_ok:
  assumes "fields_ok (formData (ui c))"
  shows "fields_ok (formData (ui (step pf c ev)))"
proof (cases ev)
  case (InputChange name val)
  with assms show ?thesis
    by (cases "handleInputChange pf (ui c) name val") (simp_all add: handleInputChange_fields_ok)
next
  case NextClick
  with assms show ?thesis
    by (simp add: nextGroup_def handleSubmit_def issue_def)
next
  case PrevClick
  with assms show ?thesis by (simp add: prevGroup_def)
next
  case Reset
  then show ?thesis by (simp add: resetForm_def fields_ok_initialFormData)
next
  case (Settle n out)
  with assms show ?thesis by (cases out) simp_all
qed

lemma run_fields_ok: "fields_ok (formData (ui (run pf initial_config evs)))"
proof (induction evs rule: rev_induct)
  case Nil
  show ?case
    by (simp add: run_def initial_config_def initial_state_def fields_ok_initialFormData)
next
  case (snoc ev evs)
  then show ?case by (simp add: run_snoc step_fields_ok)
qed


text \<open>
  Claim C4. For every field that has constraints (each of the 21 has), every parser and
  every text, the edit succeeds and touches no other field. An empty text makes the field
  unset; a text that does not parse leaves the state as it was; otherwise the field holds
  a number within the declared bounds: the minimum if the parsed value is below a declared
  minimum, the maximum if it is above a declared maximum, and the parsed value itself
  otherwise. A field that was unset or within its bounds before the edit is so after it,
  and in every state reached from the initial one each field is unset or a number within
  its bounds; where both bounds are declared that number lies between them.
\<close>

theorem handleInputChange_within_bounds:
  assumes c: "map_of fieldConstraints name = Some c"
  shows "(\<exists>s'. handleInputChange pf s name val = Inr s'
           \<and> (\<forall>k. k \<noteq> name \<longrightarrow> map_of (formData s') k = map_of (formData s) k)
           \<and> (val = [] \<longrightarrow> map_of (formData s') name = Some Empty)
           \<and> (val \<noteq> [] \<and> isNaN (pf val) \<longrightarrow> s' = s)
           \<and> (val \<noteq> [] \<and> \<not> isNaN (pf val) \<longrightarrow>
                (\<exists>x. map_of (formData s') name = Some (Num x) \<and> in_bounds c x
                   \<and> (below_min c (pf val) \<longrightarrow> min_c c = Some x)
                   \<and> (above_max c (pf val) \<longrightarrow> max_c c = Some x)
                   \<and> (\<not> below_min c (pf val) \<and> \<not> above_max c (pf val) \<longrightarrow> x = pf val)))
           \<and> ((\<exists>v. map_of (formData s) name = Some v \<and> stored_ok c v) \<longrightarrow>
                (\<exists>v. map_of (formData s') name = Some v \<and> stored_ok c v)))
         \<and> (\<exists>v. map_of (formData (ui (run pf initial_config evs))) name = Some v
                \<and> stored_ok c v)
         \<and> (\<forall>x lo hi. map_of (formData (ui (run pf initial_config evs))) name = Some (Num x)
                \<and> min_c c = Some lo \<and> max_c c = Some hi \<longrightarrow> js_le lo x \<and> js_le x hi)"
proof -
  from handleInputChange_field [OF c, of pf s val] obtain s'
    where r: "handleInputChange pf s name val = Inr s'"
      and f: "(val = [] \<longrightarrow> map_of (formData s') name = Some Empty)
           \<and> (val \<noteq> [] \<and> isNaN (pf val) \<longrightarrow> s' = s)
           \<and> (val \<noteq> [] \<and> \<not> isNaN (pf val) \<longrightarrow>
                (\<exists>x. map_of (formData s') name = Some (Num x) \<and> in_bounds c x
                   \<and> (below_min c (pf val) \<longrightarrow> min_c c = Some x)
                   \<and> (above_max c (pf val) \<longrightarrow> max_c c = Some x)
                   \<and> (\<not> below_min c (pf val) \<and> \<not> above_max c (pf val) \<longrightarrow> x = pf val)))"
    by blast
  have o: "\<forall>k. k \<noteq> name \<longrightarrow> map_of (formData s') k = map_of (formData s) k"
    using r by (simp add: handleInputChange_others)
  have p: "(\<exists>v. map_of (formData s) name = Some v \<and> stored_ok c v) \<longrightarrow>
             (\<exists>v. map_of (formData s') name = Some v \<and> stored_ok c v)"
    using handleInputChange_stored_ok [OF c r] by blast
  have edit: "\<exists>s'. handleInputChange pf s name val = Inr s'
           \<and> (\<forall>k. k \<noteq> name \<longrightarrow> map_of (formData s') k = map_of (formData s) k)
           \<and> (val = [] \<longrightarrow> map_of (formData s') name = Some Empty)
           \<and> (val \<noteq> [] \<and> isNaN (pf val) \<longrightarrow> s' = s)
           \<and> (val \<noteq> [] \<and> \<not> isNaN (pf val) \<longrightarrow>
                (\<exists>x. map_of (formData s') name = Some (Num x) \<and> in_bounds c x
                   \<and> (below_min c (pf val) \<longrightarrow> min_c c = Some x)
                   \<and> (above_max c (pf val) \<longrightarrow> max_c c = Some x)
                   \<and> (\<not> below_min c (pf val) \<and> \<not> above_max c (pf val) \<longrightarrow> x = pf val)))
           \<and> ((\<exists>v. map_of (formData s) name = Some v \<and> stored_ok c v) \<longrightarrow>
                (\<exists>v. map_of (formData s') name = Some v \<and> stored_ok c v))"
    using r o f p by (intro exI [of _ s']) simp
  have inv: "\<exists>v. map_of (formData (ui (run pf initial_config evs))) name = Some v
               \<and> stored_ok c v"
    using run_fields_ok [of pf evs] c by (simp add: fields_ok_def)
  have both: "\<forall>x lo hi. map_of (formData (ui (run pf initial_config evs))) name = Some (Num x)
                \<and> min_c c = Some lo \<and> max_c c = Some hi \<longrightarrow> js_le lo x \<and> js_le x hi"
    using inv by (auto simp: in_bounds_def)
  from edit inv both show ?thesis by (intro conjI)
qed

theorem handleInputChange_within_bounds_witness:
  "map_of fieldConstraints ''CreditRating'' = Some \<lparr> min_c = Some (Fin 1), max_c = Some (Fin 5) \<rparr>
   \<and> above_max \<lparr> min_c = Some (Fin 1), max_c = Some (Fin 5) \<rparr> (parseFloat_sample ''150'')
   \<and> (\<exists>s'. handleInputChange parseFloat_sample initial_state ''CreditRating'' ''150'' = Inr s'
         \<and> map_of (formData s') ''CreditRating'' = Some (Num (Fin 5)))"
proof -
  have c: "map_of fieldConstraints ''CreditRating'' =
             Some \<lparr> min_c = Some (Fin 1), max_c = Some (Fin 5) \<rparr>"
    by code_simp
  have v: "''150'' \<noteq> []" "\<not> isNaN (parseFloat_sample ''150'')"
    "above_max \<lparr> min_c = Some (Fin 1), max_c = Some (Fin 5) \<rparr> (parseFloat_sample ''150'')"
    by code_simp+
  from handleInputChange_within_bounds
    [OF c, where pf = parseFloat_sample and s = initial_state and val = "''150''" and evs = "[]"] v
  have "\<exists>s'. handleInputChange parseFloat_sample initial_state ''CreditRating'' ''150'' = Inr s'
         \<and> map_of (formData s') ''CreditRating'' = Some (Num (Fin 5))"
    by auto
  with c v show ?thesis by simp
qed

end
